theory Spec2Isabelle
  imports Main
begin

section \<open>Python values\<close>

text \<open>
  A Python \<open>str\<close> is a sequence of Unicode code points, and slicing and \<open>len\<close>
  count code points. The status endpoint slices exception messages and its literals hold
  characters outside ASCII, so a \<open>str\<close> is modelled as the list of its code points.
  \<open>ascii\<close> turns an ASCII literal into that representation.
\<close>

type_synonym ustr = "nat list"

definition ascii :: "string \<Rightarrow> ustr" where
  "ascii s = map of_char s"

text \<open>
  \<open>datetime.datetime\<close>, naive (no tzinfo), as the store's driver decodes a stored
  date by default.
\<close>

record datetime =
  year :: nat
  month :: nat
  day :: nat
  hour :: nat
  minute :: nat
  second :: nat
  microsecond :: nat

text \<open>
  The values a stored record holds (spec, section 9: a map of string to scalar or
  timestamp values). A float is carried as its \<open>repr\<close> text, which determines it; an
  \<open>ObjectId\<close> as its 24 hexadecimal digits.
\<close>

datatype pyval =
    PNone
  | PBool bool
  | PInt int
  | PFloat ustr
  | PStr ustr
  | PObjectId ustr
  | PDatetime datetime

subsection \<open>\<open>str()\<close> and \<open>isoformat()\<close>\<close>

fun digits :: "nat \<Rightarrow> ustr" where
  "digits n = (if n < 10 then [48 + n] else digits (n div 10) @ [48 + n mod 10])"

declare digits.simps [simp del]

text \<open>\<open>'%0wd' % n\<close> for a natural number: decimal digits, zero-padded to width \<open>w\<close>.\<close>

definition zpad :: "nat \<Rightarrow> nat \<Rightarrow> ustr" where
  "zpad w n = replicate (w - length (digits n)) 48 @ digits n"

definition str_int :: "int \<Rightarrow> ustr" where
  "str_int i = (if i < 0 then 45 # digits (nat (- i)) else digits (nat i))"

text \<open>
  \<open>datetime.isoformat(sep)\<close>: \<open>YYYY-MM-DD\<close>, the separator, \<open>HH:MM:SS\<close>, and
  \<open>.ffffff\<close> when the microsecond is not zero.
\<close>

definition format_datetime :: "nat \<Rightarrow> datetime \<Rightarrow> ustr" where
  "format_datetime sep t =
     zpad 4 (year t) @ [45] @ zpad 2 (month t) @ [45] @ zpad 2 (day t) @ [sep] @
     zpad 2 (hour t) @ [58] @ zpad 2 (minute t) @ [58] @ zpad 2 (second t) @
     (if microsecond t = 0 then [] else [46] @ zpad 6 (microsecond t))"

text \<open>
  \<open>v.isoformat()\<close>, with the default separator \<open>T\<close>. Of the values above only a
  datetime has the attribute; the result is \<open>None\<close> where \<open>hasattr(v, "isoformat")\<close>
  is false.
\<close>

fun isoformat :: "pyval \<Rightarrow> ustr option" where
  "isoformat (PDatetime t) = Some (format_datetime 84 t)"
| "isoformat v = None"

text \<open>\<open>str(v)\<close>. For a datetime it is \<open>isoformat(sep=' ')\<close>.\<close>

fun py_str :: "pyval \<Rightarrow> ustr" where
  "py_str PNone = ascii ''None''"
| "py_str (PBool b) = (if b then ascii ''True'' else ascii ''False'')"
| "py_str (PInt i) = str_int i"
| "py_str (PFloat r) = r"
| "py_str (PStr s) = s"
| "py_str (PObjectId h) = h"
| "py_str (PDatetime t) = format_datetime 32 t"

section \<open>Dictionaries and the object store\<close>

text \<open>
  A \<open>dict\<close> keeps its items in insertion order: an association list, whose keys are
  distinct in every dict Python can build.
\<close>

type_synonym pydict = "(ustr \<times> pyval) list"

definition wf_dict :: "pydict \<Rightarrow> bool" where
  "wf_dict d = distinct (map fst d)"

text \<open>\<open>d[k] = v\<close> on the items: an existing key keeps its place, a new one goes last.\<close>

fun items_set :: "ustr \<Rightarrow> pyval \<Rightarrow> pydict \<Rightarrow> pydict" where
  "items_set k v [] = [(k, v)]"
| "items_set k v ((k', v') # kvs) =
     (if k' = k then (k, v) # kvs else (k', v') # items_set k v kvs)"

text \<open>Removing a key from the items.\<close>

fun items_del :: "ustr \<Rightarrow> pydict \<Rightarrow> pydict" where
  "items_del k [] = []"
| "items_del k ((k', v') # kvs) =
     (if k' = k then items_del k kvs else (k', v') # items_del k kvs)"

text \<open>
  Dict objects are mutable and passed by reference. The store holds every dict object;
  a reference is an index into it, and a new object takes the next index.
\<close>

type_synonym ref = nat
type_synonym store = "pydict list"

text \<open>\<open>d.copy()\<close>: a new object with the same items.\<close>

definition dict_copy :: "store \<Rightarrow> ref \<Rightarrow> store \<times> ref" where
  "dict_copy h a = (h @ [h ! a], length h)"

text \<open>\<open>d.get(k)\<close>, \<open>None\<close> when \<open>k not in d\<close>.\<close>

definition dict_lookup :: "store \<Rightarrow> ref \<Rightarrow> ustr \<Rightarrow> pyval option" where
  "dict_lookup h d k = map_of (h ! d) k"

definition dict_setitem :: "store \<Rightarrow> ref \<Rightarrow> ustr \<Rightarrow> pyval \<Rightarrow> store" where
  "dict_setitem h d k v = h[d := items_set k v (h ! d)]"

definition dict_delitem :: "store \<Rightarrow> ref \<Rightarrow> ustr \<Rightarrow> store" where
  "dict_delitem h d k = h[d := items_del k (h ! d)]"

text \<open>\<open>list(d.items())\<close>: a snapshot of the items.\<close>

definition dict_items :: "store \<Rightarrow> ref \<Rightarrow> (ustr \<times> pyval) list" where
  "dict_items h d = h ! d"

section \<open>\<open>serialize_doc\<close>\<close>

text \<open>The argument is \<open>None\<close> or a reference to a dict. \<open>not doc\<close> holds for \<open>None\<close> and for the empty dict.\<close>

definition py_not :: "store \<Rightarrow> ref option \<Rightarrow> bool" where
  "py_not h doc = (case doc of None \<Rightarrow> True | Some a \<Rightarrow> h ! a = [])"

text \<open>
  The loop \<open>for k, v in list(d.items()): if hasattr(v, "isoformat"): d[k] = v.isoformat()\<close>
  over the snapshot \<open>kvs\<close>, updating the object \<open>d\<close> in the store.
\<close>

fun convert_fields :: "store \<Rightarrow> ref \<Rightarrow> (ustr \<times> pyval) list \<Rightarrow> store" where
  "convert_fields h d [] = h"
| "convert_fields h d ((k, v) # kvs) =
     convert_fields
       (case isoformat v of
          Some s \<Rightarrow> dict_setitem h d k (PStr s)
        | None \<Rightarrow> h) d kvs"

text \<open>
  \<open>if "_id" in d: d["id"] = str(d.pop("_id"))\<close>: the lookup is the membership test, and
  on a present key \<open>pop\<close> hands its value over and deletes the key.
\<close>

definition rename_id :: "store \<Rightarrow> ref \<Rightarrow> store" where
  "rename_id h d =
     (case dict_lookup h d (ascii ''_id'') of
        None \<Rightarrow> h
      | Some v \<Rightarrow> dict_setitem (dict_delitem h d (ascii ''_id'')) d (ascii ''id'') (PStr (py_str v)))"

definition serialize_doc :: "store \<Rightarrow> ref option \<Rightarrow> store \<times> ref option" where
  "serialize_doc h doc =
     (if py_not h doc then (h, doc)
      else
        let (h1, d) = dict_copy h (the doc);
            h2 = rename_id h1 d;
            h3 = convert_fields h2 d (dict_items h2 d)
        in (h3, Some d))"

text \<open>The record a reference stands for: what a caller reads through the returned value.\<close>

definition deref :: "store \<Rightarrow> ref option \<Rightarrow> pydict option" where
  "deref h r = map_option (\<lambda>a. h ! a) r"


text \<open>
  The record that \<open>serialize_doc\<close> returns for a dict object holding the items \<open>d\<close>, as
  its caller reads it.
\<close>

definition serialize_value :: "pydict \<Rightarrow> pydict option" where
  "serialize_value d = (let (h, r) = serialize_doc [d] (Some 0) in deref h r)"

section \<open>The document gateway\<close>

text \<open>
  The product shape (class \<open>Product\<close> of module \<open>schemas\<close>, built by keyword in
  \<open>seed_products\<close>). The price is a float, carried as its \<open>repr\<close> text.
\<close>

record product =
  title :: ustr
  description :: ustr
  price :: ustr
  category :: ustr
  in_stock :: bool

text \<open>
  \<open>get_documents(collection_name, filter_dict, limit)\<close> and
  \<open>create_document(collection_name, data)\<close> of module \<open>database\<close> are parameters of the
  handlers: any pair of operations on a store state \<open>'s\<close>. A call returns its value
  (\<open>Inr\<close>) or raises an \<open>Exception\<close> \<open>e\<close>, given as the text \<open>str(e)\<close> (\<open>Inl\<close>); either
  way it leaves a store state behind.
\<close>

record 's gateway =
  get_documents :: "ustr \<Rightarrow> pydict \<Rightarrow> int option \<Rightarrow> 's \<Rightarrow> (ustr + pydict list) \<times> 's"
  create_document :: "ustr \<Rightarrow> product \<Rightarrow> 's \<Rightarrow> (ustr + ustr) \<times> 's"

text \<open>
  A gateway that also records every call made through it and whether the call raised:
  it behaves as \<open>gw\<close> and appends to a trace kept beside the store state.
\<close>

datatype request =
    GetDocuments ustr pydict "int option"
  | CreateDocument ustr product

datatype outcome = Raised ustr | Returned

type_synonym trace = "(request \<times> outcome) list"

definition outcome_of :: "ustr + 'a \<Rightarrow> outcome" where
  "outcome_of r = (case r of Inl e \<Rightarrow> Raised e | Inr x \<Rightarrow> Returned)"

definition traced :: "'s gateway \<Rightarrow> ('s \<times> trace) gateway" where
  "traced gw =
     \<lparr>get_documents = (\<lambda>c f l (s, t).
        case get_documents gw c f l s of
          (r, s') \<Rightarrow> (r, (s', t @ [(GetDocuments c f l, outcome_of r)]))),
      create_document = (\<lambda>c p (s, t).
        case create_document gw c p s of
          (r, s') \<Rightarrow> (r, (s', t @ [(CreateDocument c p, outcome_of r)])))\<rparr>"

section \<open>The handlers\<close>

text \<open>\<open>raise HTTPException(status_code=..., detail=...)\<close> is the \<open>Inl\<close> result of a handler.\<close>

datatype http_exception = HTTPException (status_code: int) (detail: ustr)

text \<open>Truthiness of an \<open>Optional[str]\<close>: false for \<open>None\<close> and for the empty string.\<close>

definition truthy :: "ustr option \<Rightarrow> bool" where
  "truthy x = (case x of None \<Rightarrow> False | Some s \<Rightarrow> s \<noteq> [])"

text \<open>
  \<open>[serialize_doc(x) for x in items]\<close>, left to right over the references \<open>xs\<close>, every
  call working on the store the one before it left.
\<close>

fun serialize_each :: "store \<Rightarrow> ref list \<Rightarrow> store \<times> ref option list" where
  "serialize_each h [] = (h, [])"
| "serialize_each h (x # xs) =
     (let (h1, r) = serialize_doc h (Some x);
          (h2, rs) = serialize_each h1 xs
      in (h2, r # rs))"

text \<open>
  The records the gateway returned are the dict objects of the store, at the references
  \<open>0, 1, ...\<close>; the response holds the records the returned references stand for.
\<close>

definition serialize_items :: "pydict list \<Rightarrow> pydict option list" where
  "serialize_items items =
     (let (h, rs) = serialize_each items [0..<length items] in map (deref h) rs)"

definition list_products ::
    "'s gateway \<Rightarrow> ustr option \<Rightarrow> int option \<Rightarrow> 's \<Rightarrow> (http_exception + pydict option list) \<times> 's" where
  "list_products gw cat limit s =
     (let filter_dict = (if truthy cat then [(ascii ''category'', PStr (the cat))] else [])
      in case get_documents gw (ascii ''product'') filter_dict limit s of
           (Inl e, s') \<Rightarrow> (Inl (HTTPException 500 e), s')
         | (Inr items, s') \<Rightarrow> (Inr (serialize_items items), s'))"

definition create_product ::
    "'s gateway \<Rightarrow> product \<Rightarrow> 's \<Rightarrow> (http_exception + pydict) \<times> 's" where
  "create_product gw p s =
     (case create_document gw (ascii ''product'') p s of
        (Inl e, s') \<Rightarrow> (Inl (HTTPException 500 e), s')
      | (Inr new_id, s') \<Rightarrow> (Inr [(ascii ''id'', PStr new_id)], s'))"

definition sample_products :: "product list" where
  "sample_products =
     [\<lparr>title = ascii ''Adjustable Dumbbell (Pair)'',
       description = ascii ''Space-saving adjustable dumbbells with quick-select weight system.'',
       price = ascii ''249.99'',
       category = ascii ''Strength'',
       in_stock = True\<rparr>,
      \<lparr>title = ascii ''Kettlebell 16kg'',
       description = ascii ''Cast iron kettlebell with flat base and comfortable handle.'',
       price = ascii ''59.99'',
       category = ascii ''Strength'',
       in_stock = True\<rparr>,
      \<lparr>title = ascii ''Yoga Mat Pro'',
       description = ascii ''Non-slip, 6mm cushioning yoga mat for comfort and stability.'',
       price = ascii ''39.99'',
       category = ascii ''Mobility'',
       in_stock = True\<rparr>,
      \<lparr>title = ascii ''Resistance Bands Set'',
       description = ascii ''Set of 5 bands with varying resistance levels and door anchor.'',
       price = ascii ''24.99'',
       category = ascii ''Accessories'',
       in_stock = True\<rparr>,
      \<lparr>title = ascii ''Foldable Treadmill'',
       description = ascii ''Compact treadmill with incline and app connectivity.'',
       price = ascii ''699.0'',
       category = ascii ''Cardio'',
       in_stock = True\<rparr>]"

text \<open>
  \<open>for p in sample_products: create_document("product", p)\<close>: the first call that raises
  ends the loop with its exception.
\<close>

fun create_each :: "'s gateway \<Rightarrow> product list \<Rightarrow> 's \<Rightarrow> (ustr + unit) \<times> 's" where
  "create_each gw [] s = (Inr (), s)"
| "create_each gw (p # ps) s =
     (case create_document gw (ascii ''product'') p s of
        (Inl e, s') \<Rightarrow> (Inl e, s')
      | (Inr new_id, s') \<Rightarrow> create_each gw ps s')"

definition seed_products :: "'s gateway \<Rightarrow> 's \<Rightarrow> (http_exception + pydict) \<times> 's" where
  "seed_products gw s =
     (case get_documents gw (ascii ''product'') [] (Some 1) s of
        (Inl e, s1) \<Rightarrow> (Inl (HTTPException 500 e), s1)
      | (Inr existing, s1) \<Rightarrow>
          if existing \<noteq> [] then
            (Inr [(ascii ''status'', PStr (ascii ''ok'')),
                  (ascii ''message'', PStr (ascii ''Products already exist''))], s1)
          else
            (case create_each gw sample_products s1 of
               (Inl e, s2) \<Rightarrow> (Inl (HTTPException 500 e), s2)
             | (Inr u, s2) \<Rightarrow>
                 (Inr [(ascii ''status'', PStr (ascii ''ok'')),
                       (ascii ''count'', PInt (int (length sample_products)))], s2)))"

section \<open>The status endpoint\<close>

text \<open>
  The handle \<open>db\<close> of module \<open>database\<close> is \<open>None\<close> or an object, seen through what
  \<open>test_database\<close> asks of it. Reading its attribute \<open>name\<close> raises (\<open>Inl\<close>, the
  exception's text), finds no attribute (\<open>Inr None\<close>) or yields the name;
  \<open>list_collection_names()\<close> raises or returns the names.
\<close>

record db_handle =
  name_attr :: "ustr + ustr option"
  list_collection_names :: "ustr + ustr list"

text \<open>The response dict, which has the same six keys on every path.\<close>

record status_response =
  backend :: ustr
  database :: ustr
  database_url :: "ustr option"
  database_name :: "ustr option"
  connection_status :: ustr
  collections :: "ustr list"

text \<open>
  The marks of the literals: U+2705 (check mark), U+274C (cross mark) and
  U+26A0 U+FE0F (warning sign with its variation selector).
\<close>

definition check_mark :: ustr where
  "check_mark = [9989]"

definition cross_mark :: ustr where
  "cross_mark = [10060]"

definition warning_sign :: ustr where
  "warning_sign = [9888, 65039]"

text \<open>
  The inner \<open>try\<close>: \<open>collections = db.list_collection_names()\<close> and the two assignments
  after it, or the handler of the exception it raised.
\<close>

definition list_collections :: "db_handle \<Rightarrow> status_response \<Rightarrow> status_response" where
  "list_collections d response =
     (case list_collection_names d of
        Inr cs \<Rightarrow>
          response\<lparr>collections := take 10 cs,
                   database := check_mark @ ascii '' Connected & Working''\<rparr>
      | Inl e \<Rightarrow>
          response\<lparr>database := warning_sign @ ascii ''  Connected but Error: '' @ take 50 e\<rparr>)"

text \<open>
  The body of the outer \<open>try\<close>, statement by statement. It ends normally (\<open>None\<close>) or
  with an exception (\<open>Some\<close>, its text); the response is as the statements before that
  point left it.
\<close>

definition probe_database ::
    "db_handle option \<Rightarrow> status_response \<Rightarrow> ustr option \<times> status_response" where
  "probe_database db response =
     (case db of
        Some d \<Rightarrow>
          (let r1 = response\<lparr>database := check_mark @ ascii '' Available'',
                             database_url := Some (check_mark @ ascii '' Configured'')\<rparr>
           in case name_attr d of
                Inl e \<Rightarrow> (Some e, r1)
              | Inr nm \<Rightarrow>
                  (let r2 = r1\<lparr>database_name :=
                                  Some (case nm of
                                          Some n \<Rightarrow> n
                                        | None \<Rightarrow> check_mark @ ascii '' Connected''),
                                connection_status := ascii ''Connected''\<rparr>
                   in (None, list_collections d r2)))
      | None \<Rightarrow>
          (None, response\<lparr>database := warning_sign @ ascii ''  Available but not initialized''\<rparr>))"

text \<open>
  \<open>getenv\<close> is \<open>os.getenv\<close>: the value of a variable of the environment, if set. The
  result is \<open>Inr\<close>, the response returned; \<open>Inl\<close> would be an exception leaving the
  handler.
\<close>

definition test_database ::
    "db_handle option \<Rightarrow> (ustr \<Rightarrow> ustr option) \<Rightarrow> ustr + status_response" where
  "test_database db getenv =
     (let response = \<lparr>backend = check_mark @ ascii '' Running'',
                      database = cross_mark @ ascii '' Not Available'',
                      database_url = None,
                      database_name = None,
                      connection_status = ascii ''Not Connected'',
                      collections = []\<rparr>;
          response =
            (case probe_database db response of
               (None, r) \<Rightarrow> r
             | (Some e, r) \<Rightarrow> r\<lparr>database := cross_mark @ ascii '' Error: '' @ take 50 e\<rparr>);
          response = response\<lparr>database_url :=
            Some (if truthy (getenv (ascii ''DATABASE_URL''))
                  then check_mark @ ascii '' Set'' else cross_mark @ ascii '' Not Set'')\<rparr>;
          response = response\<lparr>database_name :=
            Some (if truthy (getenv (ascii ''DATABASE_NAME''))
                  then check_mark @ ascii '' Set'' else cross_mark @ ascii '' Not Set'')\<rparr>
      in Inr response)"

section \<open>A store in memory\<close>

text \<open>
  Modelled from the spec: an instance of the Document Gateway of section 4.1 (module
  \<open>database\<close> is not among the sources), on which the handlers run on concrete stores.
  The state is \<open>None\<close> while the store is unreachable, and then every call fails;
  otherwise it holds the records with their collections, oldest first. \<open>create\<close>
  persists the fields under a new identifier and returns it, and fails when the store
  rejects the write, here once it holds \<open>quota\<close> records. \<open>list\<close> returns the records
  of the collection that agree with the equality filter, at most \<open>limit\<close> of them.
\<close>

type_synonym memory = "(ustr \<times> pydict) list option"

definition product_fields :: "product \<Rightarrow> pydict" where
  "product_fields p =
     [(ascii ''title'', PStr (title p)),
      (ascii ''description'', PStr (description p)),
      (ascii ''price'', PFloat (price p)),
      (ascii ''category'', PStr (category p)),
      (ascii ''in_stock'', PBool (in_stock p))]"

definition matches :: "pydict \<Rightarrow> pydict \<Rightarrow> bool" where
  "matches f d = list_all (\<lambda>kv. map_of d (fst kv) = Some (snd kv)) f"

definition memory_gateway :: "nat \<Rightarrow> memory gateway" where
  "memory_gateway quota =
     \<lparr>get_documents = (\<lambda>c f l s.
        case s of
          None \<Rightarrow> (Inl (ascii ''store unreachable''), s)
        | Some docs \<Rightarrow>
            (let found = map snd (filter (\<lambda>cd. fst cd = c \<and> matches f (snd cd)) docs)
             in (Inr (case l of None \<Rightarrow> found | Some n \<Rightarrow> take (nat n) found), s))),
      create_document = (\<lambda>c p s.
        case s of
          None \<Rightarrow> (Inl (ascii ''store unreachable''), s)
        | Some docs \<Rightarrow>
            if quota \<le> length docs then (Inl (ascii ''write rejected''), s)
            else
              (let new_id = zpad 24 (length docs)
               in (Inr new_id,
                   Some (docs @ [(c, (ascii ''_id'', PObjectId new_id) # product_fields p)]))))\<rparr>"

section \<open>The serialization rule on items\<close>

text \<open>
  What \<open>serialize_doc\<close> does, told on the items of one dict: the value of a field after
  the loop, the renaming of the identifier, and the loop over a snapshot.
\<close>

definition convert_value :: "pyval \<Rightarrow> pyval" where
  "convert_value v = (case isoformat v of Some s \<Rightarrow> PStr s | None \<Rightarrow> v)"

definition convert_item :: "ustr \<times> pyval \<Rightarrow> ustr \<times> pyval" where
  "convert_item kv = (fst kv, convert_value (snd kv))"

fun convert_items :: "pydict \<Rightarrow> (ustr \<times> pyval) list \<Rightarrow> pydict" where
  "convert_items d [] = d"
| "convert_items d ((k, v) # kvs) =
     convert_items
       (case isoformat v of
          Some s \<Rightarrow> items_set k (PStr s) d
        | None \<Rightarrow> d) kvs"

definition renamed :: "pydict \<Rightarrow> pydict" where
  "renamed d =
     (case map_of d (ascii ''_id'') of
        None \<Rightarrow> d
      | Some v \<Rightarrow> items_set (ascii ''id'') (PStr (py_str v)) (items_del (ascii ''_id'') d))"

definition serialized :: "pydict \<Rightarrow> pydict" where
  "serialized d = (if d = [] then d else convert_items (renamed d) (renamed d))"

text \<open>An argument Python can pass: \<open>None\<close>, or a reference to a dict of the store.\<close>

definition valid_doc :: "store \<Rightarrow> ref option \<Rightarrow> bool" where
  "valid_doc h doc = (case doc of None \<Rightarrow> True | Some a \<Rightarrow> a < length h \<and> wf_dict (h ! a))"

section \<open>Sample data\<close>

text \<open>A stored product that already has a field \<open>id\<close>, and a creation date.\<close>

definition sample_record :: pydict where
  "sample_record =
     [(ascii ''_id'', PObjectId (ascii ''65a1f0c2e4b0a1b2c3d4e5f6'')),
      (ascii ''id'', PInt 7),
      (ascii ''title'', PStr (ascii ''Yoga Mat Pro'')),
      (ascii ''created_at'',
         PDatetime \<lparr>year = 2024, month = 3, day = 2, hour = 10, minute = 4, second = 5,
           microsecond = 0\<rparr>)]"

text \<open>A second stored product, with a category, and a store that holds both.\<close>

definition sample_treadmill :: pydict where
  "sample_treadmill =
     [(ascii ''_id'', PObjectId (ascii ''65a1f0c2e4b0a1b2c3d4e5f7'')),
      (ascii ''title'', PStr (ascii ''Foldable Treadmill'')),
      (ascii ''category'', PStr (ascii ''Cardio''))]"

definition sample_store :: memory where
  "sample_store =
     Some [(ascii ''product'', sample_record), (ascii ''product'', sample_treadmill)]"

section \<open>Lemmas on items and on the store\<close>



lemma ascii_eq_iff [simp]: "ascii s = ascii t \<longleftrightarrow> s = t"
  by (simp add: ascii_def inj_map_eq_map inj_of_char)

lemma keys_items_set: "fst ` set (items_set k v d) = insert k (fst ` set d)"
  by (induction d) force+

lemma keys_items_del: "fst ` set (items_del k d) = fst ` set d - {k}"
  by (induction d) force+

lemma distinct_items_set: "distinct (map fst d) \<Longrightarrow> distinct (map fst (items_set k v d))"
  by (induction d) (auto simp: keys_items_set)

lemma distinct_items_del: "distinct (map fst d) \<Longrightarrow> distinct (map fst (items_del k d))"
  by (induction d) (auto simp: keys_items_del)

lemma map_of_items_set: "map_of (items_set k v d) = (map_of d)(k \<mapsto> v)"
  by (induction d) auto

lemma map_of_items_del: "map_of (items_del k d) = (map_of d)(k := None)"
  by (induction d) auto

lemma items_set_nonempty: "items_set k v d \<noteq> []"
  by (induction k v d rule: items_set.induct) auto

lemma items_set_past:
  "k \<notin> fst ` set xs \<Longrightarrow> items_set k v (xs @ (k, w) # ys) = xs @ (k, v) # ys"
  by (induction xs) auto

lemma wf_renamed: "wf_dict d \<Longrightarrow> wf_dict (renamed d)"
  by (auto simp: wf_dict_def renamed_def distinct_items_set distinct_items_del split: option.splits)

text \<open>The loop changes the object it is given and nothing else.\<close>

lemma convert_fields_items:
  "d < length h \<Longrightarrow> convert_fields h d kvs = h[d := convert_items (h ! d) kvs]"
proof (induction kvs arbitrary: h)
  case Nil
  then show ?case by simp
next
  case (Cons kv kvs)
  obtain k v where kv: "kv = (k, v)" by (cases kv)
  show ?case
  proof (cases "isoformat v")
    case None
    with Cons show ?thesis by (simp add: kv)
  next
    case (Some s)
    have "d < length (dict_setitem h d k (PStr s))"
      using Cons.prems by (simp add: dict_setitem_def)
    from Cons.IH [OF this] Some Cons.prems show ?thesis
      by (simp add: kv dict_setitem_def)
  qed
qed

lemma convert_items_snapshot:
  "distinct (map fst (pre @ kvs)) \<Longrightarrow>
     convert_items (map convert_item pre @ kvs) kvs = map convert_item (pre @ kvs)"
proof (induction kvs arbitrary: pre)
  case Nil
  then show ?case by simp
next
  case (Cons kv kvs)
  obtain k v where kv: "kv = (k, v)" by (cases kv)
  let ?d = "case isoformat v of
              Some s \<Rightarrow> items_set k (PStr s) (map convert_item pre @ (k, v) # kvs)
            | None \<Rightarrow> map convert_item pre @ (k, v) # kvs"
  have notin: "k \<notin> fst ` set (map convert_item pre)"
    using Cons.prems by (force simp: kv convert_item_def)
  have step: "?d = map convert_item (pre @ [(k, v)]) @ kvs"
  proof (cases "isoformat v")
    case None
    then show ?thesis by (simp add: convert_item_def convert_value_def)
  next
    case (Some s)
    have "items_set k (PStr s) (map convert_item pre @ (k, v) # kvs)
            = map convert_item pre @ (k, PStr s) # kvs"
      by (rule items_set_past [OF notin])
    moreover have "convert_item (k, v) = (k, PStr s)"
      using Some by (simp add: convert_item_def convert_value_def)
    ultimately show ?thesis using Some by simp
  qed
  have dist: "distinct (map fst ((pre @ [(k, v)]) @ kvs))"
    using Cons.prems by (simp add: kv)
  have "convert_items (map convert_item pre @ (k, v) # kvs) ((k, v) # kvs)
          = convert_items ?d kvs"
    by simp
  also have "\<dots> = convert_items (map convert_item (pre @ [(k, v)]) @ kvs) kvs"
    by (simp only: step)
  also have "\<dots> = map convert_item ((pre @ [(k, v)]) @ kvs)"
    by (rule Cons.IH [OF dist])
  finally show ?case by (simp add: kv)
qed

lemma convert_items_wf: "wf_dict d \<Longrightarrow> convert_items d d = map convert_item d"
  using convert_items_snapshot [of "[]" d] by (simp add: wf_dict_def)

lemma serialized_wf: "wf_dict d \<Longrightarrow> d \<noteq> [] \<Longrightarrow> serialized d = map convert_item (renamed d)"
  by (simp add: serialized_def convert_items_wf wf_renamed)

lemma rename_id_eq:
  "d < length h \<Longrightarrow> rename_id h d = h[d := renamed (h ! d)]"
  by (auto simp: rename_id_def renamed_def dict_lookup_def dict_setitem_def dict_delitem_def
      split: option.splits)

lemma serialize_doc_None: "serialize_doc h None = (h, None)"
  by (simp add: serialize_doc_def py_not_def)

lemma serialize_doc_empty: "h ! a = [] \<Longrightarrow> serialize_doc h (Some a) = (h, Some a)"
  by (simp add: serialize_doc_def py_not_def)

lemma serialize_doc_copy:
  assumes "a < length h" and "h ! a \<noteq> []"
  shows "serialize_doc h (Some a) = (h @ [serialized (h ! a)], Some (length h))"
proof -
  have "rename_id (h @ [h ! a]) (length h) = h @ [renamed (h ! a)]"
    by (simp add: rename_id_eq)
  moreover have "convert_fields (h @ [renamed (h ! a)]) (length h) (renamed (h ! a))
          = h @ [convert_items (renamed (h ! a)) (renamed (h ! a))]"
    by (simp add: convert_fields_items)
  ultimately show ?thesis
    using assms(2)
    by (simp add: serialize_doc_def py_not_def dict_copy_def dict_items_def serialized_def)
qed


lemma fst_convert_item [simp]: "fst (convert_item kv) = fst kv"
  by (simp add: convert_item_def)

lemma map_fst_convert [simp]: "map (fst \<circ> convert_item) xs = map fst xs"
  by (simp add: comp_def)

lemma keys_convert [simp]: "fst ` convert_item ` S = fst ` S"
  by (simp add: image_image)

lemma map_of_convert:
  "map_of (map convert_item xs) k = map_option convert_value (map_of xs k)"
  by (induction xs) (auto simp: convert_item_def)

lemma convert_value_twice: "convert_value (convert_value v) = convert_value v"
  by (cases v) (simp_all add: convert_value_def)

lemma convert_item_twice: "convert_item (convert_item kv) = convert_item kv"
  by (simp add: convert_item_def convert_value_twice)

lemma keys_renamed:
  "map_of d (ascii ''_id'') = Some v \<Longrightarrow>
     fst ` set (renamed d) = insert (ascii ''id'') (fst ` set d - {ascii ''_id''})"
  by (simp add: renamed_def keys_items_set keys_items_del)

lemma renamed_no_id: "ascii ''_id'' \<notin> fst ` set (renamed d)"
proof (cases "map_of d (ascii ''_id'')")
  case None
  then show ?thesis by (simp add: renamed_def map_of_eq_None_iff [symmetric])
next
  case (Some v)
  then show ?thesis by (simp add: keys_renamed)
qed

lemma renamed_id_value:
  "map_of d (ascii ''_id'') = Some v \<Longrightarrow>
     map_of (renamed d) (ascii ''id'') = Some (PStr (py_str v))"
  by (simp add: renamed_def map_of_items_set)

lemma renamed_nonempty: "d \<noteq> [] \<Longrightarrow> renamed d \<noteq> []"
  by (simp add: renamed_def items_set_nonempty split: option.splits)

lemma renamed_fixed: "ascii ''_id'' \<notin> fst ` set d \<Longrightarrow> renamed d = d"
  by (simp add: renamed_def map_of_eq_None_iff [symmetric])

lemma serialized_nonempty: "wf_dict d \<Longrightarrow> d \<noteq> [] \<Longrightarrow> serialized d \<noteq> []"
  by (simp add: serialized_wf renamed_nonempty)

lemma wf_serialized: "wf_dict d \<Longrightarrow> wf_dict (serialized d)"
proof (cases "d = []")
  case True
  then show ?thesis by (simp add: serialized_def wf_dict_def)
next
  case False
  assume "wf_dict d"
  with False wf_renamed [of d] show ?thesis
    by (simp add: serialized_wf wf_dict_def)
qed

lemma serialized_no_id: "wf_dict d \<Longrightarrow> ascii ''_id'' \<notin> fst ` set (serialized d)"
proof (cases "d = []")
  case True
  then show ?thesis by (simp add: serialized_def)
next
  case False
  assume "wf_dict d"
  with False show ?thesis by (simp add: serialized_wf renamed_no_id)
qed

lemma serialized_idem: "wf_dict d \<Longrightarrow> serialized (serialized d) = serialized d"
proof (cases "d = []")
  case True
  then show ?thesis by (simp add: serialized_def)
next
  case False
  assume wf: "wf_dict d"
  let ?out = "map convert_item (renamed d)"
  have out: "serialized d = ?out" using wf False by (rule serialized_wf)
  have ne: "?out \<noteq> []" using False by (simp add: renamed_nonempty)
  have wf_out: "wf_dict ?out" using wf_serialized [OF wf] out by simp
  have "renamed ?out = ?out"
    by (rule renamed_fixed) (simp add: renamed_no_id)
  moreover have "map convert_item ?out = ?out"
    by (simp add: convert_item_twice)
  ultimately have "serialized ?out = ?out"
    using serialized_wf [OF wf_out ne] by simp
  then show ?thesis by (simp add: out)
qed

lemma single_key:
  "distinct (map fst xs) \<Longrightarrow> map_of xs k = Some v \<Longrightarrow>
     filter (\<lambda>kv. fst kv = k) xs = [(k, v)]"
proof (induction xs)
  case Nil
  then show ?case by simp
next
  case (Cons x xs)
  show ?case
  proof (cases "fst x = k")
    case True
    then have "k \<notin> fst ` set xs" using Cons.prems(1) by simp
    then have "filter (\<lambda>kv. fst kv = k) xs = []" by (force simp: filter_empty_conv)
    with True Cons.prems(2) show ?thesis by (cases x) auto
  next
    case False
    with Cons show ?thesis by (cases x) auto
  qed
qed

section \<open>The serialization rule\<close>

text \<open>
  C1. For a record of the store that holds the key \<open>_id\<close>, \<open>serialize_doc\<close> returns a
  record whose keys are those of the input with \<open>_id\<close> taken out and \<open>id\<close> put in, and
  whose \<open>id\<close> is \<open>str\<close> of the input's \<open>_id\<close> value.
\<close>

theorem serialize_doc_renames_id:
  assumes "a < length h" and "wf_dict (h ! a)"
    and "map_of (h ! a) (ascii ''_id'') = Some v"
    and "serialize_doc h (Some a) = (h', r)"
  shows "\<exists>out. deref h' r = Some out
           \<and> fst ` set out = insert (ascii ''id'') (fst ` set (h ! a) - {ascii ''_id''})
           \<and> map_of out (ascii ''id'') = Some (PStr (py_str v))"
proof -
  have ne: "h ! a \<noteq> []" using assms(3) by auto
  have res: "h' = h @ [serialized (h ! a)]" "r = Some (length h)"
    using serialize_doc_copy [OF assms(1) ne] assms(4) by simp_all
  have out: "deref h' r = Some (map convert_item (renamed (h ! a)))"
    using ne assms(2) by (simp add: res deref_def serialized_wf)
  have keys: "fst ` set (map convert_item (renamed (h ! a)))
                = insert (ascii ''id'') (fst ` set (h ! a) - {ascii ''_id''})"
    by (simp add: keys_renamed [OF assms(3)])
  have val: "map_of (map convert_item (renamed (h ! a))) (ascii ''id'') = Some (PStr (py_str v))"
    by (simp add: map_of_convert renamed_id_value [OF assms(3)] convert_value_def)
  from out keys val show ?thesis by blast
qed

theorem serialize_doc_renames_id_witness:
  "wf_dict sample_record
   \<and> map_of sample_record (ascii ''_id'') = Some (PObjectId (ascii ''65a1f0c2e4b0a1b2c3d4e5f6''))
   \<and> (\<exists>out. deref (fst (serialize_doc [sample_record] (Some 0)))
                (snd (serialize_doc [sample_record] (Some 0))) = Some out
          \<and> fst ` set out = {ascii ''id'', ascii ''title'', ascii ''created_at''}
          \<and> map_of out (ascii ''id'') = Some (PStr (ascii ''65a1f0c2e4b0a1b2c3d4e5f6'')))"
proof -
  have wf: "wf_dict ([sample_record] ! 0)"
    by (simp add: wf_dict_def sample_record_def)
  have id: "map_of ([sample_record] ! 0) (ascii ''_id'')
              = Some (PObjectId (ascii ''65a1f0c2e4b0a1b2c3d4e5f6''))"
    by (simp add: sample_record_def)
  have run: "serialize_doc [sample_record] (Some 0)
               = (fst (serialize_doc [sample_record] (Some 0)),
                  snd (serialize_doc [sample_record] (Some 0)))"
    by simp
  have keys: "insert (ascii ''id'') (fst ` set sample_record - {ascii ''_id''})
                = {ascii ''id'', ascii ''title'', ascii ''created_at''}"
    by (auto simp: sample_record_def)
  from serialize_doc_renames_id [OF _ wf id run] wf id show ?thesis
    by (simp add: keys)
qed


lemma map_of_renamed_other:
  "k \<noteq> ascii ''_id'' \<Longrightarrow> k \<noteq> ascii ''id'' \<Longrightarrow> map_of (renamed d) k = map_of d k"
  by (simp add: renamed_def map_of_items_set map_of_items_del split: option.splits)

lemma iso_sample:
  "format_datetime 84
     \<lparr>year = 2024, month = 3, day = 2, hour = 10, minute = 4, second = 5, microsecond = 0\<rparr>
     = ascii ''2024-03-02T10:04:05''"
  by code_simp

lemma renamed_sample:
  "renamed sample_record =
     [(ascii ''id'', PStr (ascii ''65a1f0c2e4b0a1b2c3d4e5f6'')),
      (ascii ''title'', PStr (ascii ''Yoga Mat Pro'')),
      (ascii ''created_at'',
         PDatetime \<lparr>year = 2024, month = 3, day = 2, hour = 10, minute = 4, second = 5,
           microsecond = 0\<rparr>)]"
  by (simp add: renamed_def sample_record_def)

text \<open>
  C2. For a non-empty record, take the copy as the renaming of the identifier leaves it
  (\<open>h2 ! d\<close>). The returned record has the same keys in the same order; a field whose
  value has \<open>isoformat\<close> holds the text \<open>isoformat()\<close> gives, and a field whose value
  has none holds its value unchanged. The fields of the copy other than \<open>_id\<close> and \<open>id\<close>
  are those of the input.
\<close>

theorem serialize_doc_converts_fields:
  assumes "a < length h" and "wf_dict (h ! a)" and "h ! a \<noteq> []"
    and "dict_copy h a = (h1, d)" and "rename_id h1 d = h2"
    and "serialize_doc h (Some a) = (h3, r)"
  shows "r = Some d \<and> map fst (h3 ! d) = map fst (h2 ! d)
    \<and> (\<forall>k v s. (k, v) \<in> set (h2 ! d) \<and> isoformat v = Some s
           \<longrightarrow> map_of (h3 ! d) k = Some (PStr s))
    \<and> (\<forall>k v. (k, v) \<in> set (h2 ! d) \<and> isoformat v = None
           \<longrightarrow> map_of (h3 ! d) k = Some v)
    \<and> (\<forall>k. k \<noteq> ascii ''_id'' \<and> k \<noteq> ascii ''id'' \<longrightarrow> map_of (h2 ! d) k = map_of (h ! a) k)"
proof -
  let ?mid = "renamed (h ! a)"
  have d: "d = length h" and h1: "h1 = h @ [h ! a]"
    using assms(4) by (simp_all add: dict_copy_def)
  have h2: "h2 ! length h = ?mid"
    using assms(5) [symmetric] by (simp add: d h1 rename_id_eq)
  have res: "h3 = h @ [serialized (h ! a)]" "r = Some (length h)"
    using serialize_doc_copy [OF assms(1,3)] assms(6) by simp_all
  have h3: "h3 ! length h = map convert_item ?mid"
    using assms(2,3) by (simp add: res serialized_wf)
  have dist: "distinct (map fst ?mid)"
    using wf_renamed [OF assms(2)] by (simp add: wf_dict_def)
  have look: "map_of ?mid k = Some v" if "(k, v) \<in> set ?mid" for k v
    using dist that by (rule map_of_is_SomeI)
  have conv: "\<forall>k v s. (k, v) \<in> set ?mid \<and> isoformat v = Some s
                \<longrightarrow> map_of (map convert_item ?mid) k = Some (PStr s)"
    using look by (auto simp: map_of_convert convert_value_def)
  have keep: "\<forall>k v. (k, v) \<in> set ?mid \<and> isoformat v = None
                \<longrightarrow> map_of (map convert_item ?mid) k = Some v"
    using look by (auto simp: map_of_convert convert_value_def)
  have other: "\<forall>k. k \<noteq> ascii ''_id'' \<and> k \<noteq> ascii ''id'' \<longrightarrow> map_of ?mid k = map_of (h ! a) k"
    by (simp add: map_of_renamed_other)
  have keys: "map fst (map convert_item ?mid) = map fst ?mid"
    by simp
  show ?thesis
    unfolding d h2 h3 using res(2) keys conv keep other by blast
qed

theorem serialize_doc_converts_fields_witness:
  "wf_dict sample_record \<and> sample_record \<noteq> []
   \<and> snd (serialize_doc [sample_record] (Some 0)) = Some 1
   \<and> map_of (fst (serialize_doc [sample_record] (Some 0)) ! 1) (ascii ''created_at'')
        = Some (PStr (ascii ''2024-03-02T10:04:05''))
   \<and> map_of (fst (serialize_doc [sample_record] (Some 0)) ! 1) (ascii ''title'')
        = Some (PStr (ascii ''Yoga Mat Pro''))"
proof -
  let ?h1 = "[sample_record, sample_record]"
  let ?h2 = "rename_id ?h1 1"
  let ?h3 = "fst (serialize_doc [sample_record] (Some 0))"
  let ?date = "PDatetime \<lparr>year = 2024, month = 3, day = 2, hour = 10, minute = 4, second = 5,
    microsecond = 0\<rparr>"
  have len: "0 < length [sample_record]"
    by simp
  have wf: "wf_dict ([sample_record] ! 0)"
    by (simp add: wf_dict_def sample_record_def)
  have ne: "[sample_record] ! 0 \<noteq> []"
    by (simp add: sample_record_def)
  have copy: "dict_copy [sample_record] 0 = (?h1, 1)"
    by (simp add: dict_copy_def)
  have mid: "?h2 ! 1 = renamed sample_record"
    by (simp add: rename_id_eq)
  have run: "serialize_doc [sample_record] (Some 0)
               = (?h3, snd (serialize_doc [sample_record] (Some 0)))"
    by simp
  note fields = serialize_doc_converts_fields [OF len wf ne copy refl run]
  have ref: "snd (serialize_doc [sample_record] (Some 0)) = Some 1"
    using fields by blast
  have iso: "(ascii ''created_at'', ?date) \<in> set (?h2 ! 1)
               \<and> isoformat ?date = Some (ascii ''2024-03-02T10:04:05'')"
    by (simp only: mid) (simp add: renamed_sample iso_sample)
  have date: "map_of (?h3 ! 1) (ascii ''created_at'') = Some (PStr (ascii ''2024-03-02T10:04:05''))"
    using fields iso by blast
  have plain: "(ascii ''title'', PStr (ascii ''Yoga Mat Pro'')) \<in> set (?h2 ! 1)
                 \<and> isoformat (PStr (ascii ''Yoga Mat Pro'')) = None"
    by (simp only: mid) (simp add: renamed_sample)
  have title: "map_of (?h3 ! 1) (ascii ''title'') = Some (PStr (ascii ''Yoga Mat Pro''))"
    using fields plain by blast
  from wf ne ref date title show ?thesis by simp
qed

text \<open>
  C3. \<open>serialize_doc\<close> applied to its own result returns a record equal to that result,
  so the field \<open>id\<close> is not changed again, and the result has no key \<open>_id\<close>.
\<close>

theorem serialize_doc_idempotent:
  assumes "valid_doc h doc"
    and "serialize_doc h doc = (h1, r1)" and "serialize_doc h1 r1 = (h2, r2)"
  shows "deref h2 r2 = deref h1 r1
    \<and> (\<forall>out. deref h1 r1 = Some out \<longrightarrow> ascii ''_id'' \<notin> fst ` set out)"
proof (cases doc)
  case None
  with assms(2,3) show ?thesis by (simp add: serialize_doc_None deref_def)
next
  case (Some a)
  with assms(1) have a: "a < length h" and wf: "wf_dict (h ! a)"
    by (simp_all add: valid_doc_def)
  show ?thesis
  proof (cases "h ! a = []")
    case True
    have first: "h1 = h" "r1 = Some a"
      using assms(2) Some True by (simp_all add: serialize_doc_empty)
    have second: "h2 = h" "r2 = Some a"
      using assms(3) True by (simp_all add: first serialize_doc_empty)
    show ?thesis by (simp add: first second deref_def True)
  next
    case False
    let ?out = "serialized (h ! a)"
    have first: "h1 = h @ [?out]" "r1 = Some (length h)"
      using serialize_doc_copy [OF a False] assms(2) Some by simp_all
    have ne: "?out \<noteq> []" using wf False by (rule serialized_nonempty)
    have "serialize_doc h1 (Some (length h)) = (h1 @ [serialized ?out], Some (length h1))"
      using serialize_doc_copy [of "length h" h1] ne by (simp add: first(1))
    with assms(3) have second: "h2 = h1 @ [?out]" "r2 = Some (length h1)"
      by (simp_all add: first(2) serialized_idem [OF wf])
    show ?thesis
      using serialized_no_id [OF wf] by (simp add: first second deref_def nth_append)
  qed
qed

theorem serialize_doc_idempotent_witness:
  "valid_doc [sample_record] (Some 0)
   \<and> deref (fst (serialize_doc (fst (serialize_doc [sample_record] (Some 0)))
                   (snd (serialize_doc [sample_record] (Some 0)))))
            (snd (serialize_doc (fst (serialize_doc [sample_record] (Some 0)))
                   (snd (serialize_doc [sample_record] (Some 0)))))
       = deref (fst (serialize_doc [sample_record] (Some 0)))
           (snd (serialize_doc [sample_record] (Some 0)))"
proof -
  have ok: "valid_doc [sample_record] (Some 0)"
    by (simp add: valid_doc_def wf_dict_def sample_record_def)
  from serialize_doc_idempotent [OF ok surjective_pairing surjective_pairing] ok
  show ?thesis by simp
qed

text \<open>
  C4. On \<open>None\<close> and on a reference to the empty dict, \<open>serialize_doc\<close> returns its
  argument itself and leaves the store as it was.
\<close>

theorem serialize_doc_empty_identity:
  "doc = None \<or> (\<exists>a. doc = Some a \<and> h ! a = []) \<Longrightarrow> serialize_doc h doc = (h, doc)"
  by (auto simp: serialize_doc_def py_not_def)

theorem serialize_doc_empty_identity_witness:
  "serialize_doc [sample_record, []] (Some 1) = ([sample_record, []], Some 1)
   \<and> serialize_doc [sample_record, []] None = ([sample_record, []], None)"
proof -
  have "\<exists>a. Some (1::nat) = Some a \<and> [sample_record, []] ! a = []"
    by simp
  then have "serialize_doc [sample_record, []] (Some 1) = ([sample_record, []], Some 1)"
    by (intro serialize_doc_empty_identity disjI2)
  moreover have "serialize_doc [sample_record, []] None = ([sample_record, []], None)"
    by (intro serialize_doc_empty_identity disjI1 refl)
  ultimately show ?thesis by simp
qed

text \<open>
  C9. \<open>serialize_doc\<close> changes no object that existed before the call, its argument
  included; on a non-empty record it returns a reference to a new object, the copy.
\<close>

theorem serialize_doc_keeps_argument:
  assumes "a < length h" and "serialize_doc h (Some a) = (h', r)"
  shows "take (length h) h' = h \<and> h' ! a = h ! a
    \<and> (h ! a \<noteq> [] \<longrightarrow> r = Some (length h) \<and> length h' = Suc (length h))"
proof (cases "h ! a = []")
  case True
  with assms(2) show ?thesis by (simp add: serialize_doc_empty)
next
  case False
  have "h' = h @ [serialized (h ! a)]" "r = Some (length h)"
    using serialize_doc_copy [OF assms(1) False] assms(2) by simp_all
  with assms(1) show ?thesis by (simp add: nth_append)
qed

theorem serialize_doc_keeps_argument_witness:
  "fst (serialize_doc [sample_record] (Some 0)) ! 0 = sample_record
   \<and> snd (serialize_doc [sample_record] (Some 0)) = Some 1
   \<and> fst (serialize_doc [sample_record] (Some 0)) ! 1 \<noteq> sample_record"
proof -
  have ne: "sample_record \<noteq> []" by (simp add: sample_record_def)
  have run: "serialize_doc [sample_record] (Some 0)
               = (fst (serialize_doc [sample_record] (Some 0)),
                  snd (serialize_doc [sample_record] (Some 0)))"
    by simp
  have differs: "fst (serialize_doc [sample_record] (Some 0)) ! 1 \<noteq> sample_record"
    using ne by (simp add: serialize_doc_copy serialized_def renamed_sample)
      (simp add: sample_record_def)
  from serialize_doc_keeps_argument [OF _ run] ne differs show ?thesis by simp
qed

text \<open>
  C10. For a record that holds the key \<open>_id\<close>, the returned record has no key \<open>_id\<close>
  and exactly one item under \<open>id\<close>, holding \<open>str\<close> of the input's \<open>_id\<close> value, whatever
  the input held under \<open>id\<close>.
\<close>

theorem serialize_doc_id_overwrites:
  assumes "a < length h" and "wf_dict (h ! a)"
    and "map_of (h ! a) (ascii ''_id'') = Some v"
    and "serialize_doc h (Some a) = (h', r)"
  shows "\<exists>out. deref h' r = Some out \<and> ascii ''_id'' \<notin> fst ` set out
    \<and> filter (\<lambda>kv. fst kv = ascii ''id'') out = [(ascii ''id'', PStr (py_str v))]"
proof -
  let ?out = "serialized (h ! a)"
  have ne: "h ! a \<noteq> []" using assms(3) by auto
  have res: "h' = h @ [?out]" "r = Some (length h)"
    using serialize_doc_copy [OF assms(1) ne] assms(4) by simp_all
  have out: "deref h' r = Some ?out"
    by (simp add: res deref_def)
  have "map_of ?out (ascii ''id'') = Some (PStr (py_str v))"
    using assms(2) ne
    by (simp add: serialized_wf map_of_convert renamed_id_value [OF assms(3)] convert_value_def)
  moreover have "distinct (map fst ?out)"
    using wf_serialized [OF assms(2)] by (simp add: wf_dict_def)
  ultimately have "filter (\<lambda>kv. fst kv = ascii ''id'') ?out = [(ascii ''id'', PStr (py_str v))]"
    by (rule single_key [rotated])
  with out serialized_no_id [OF assms(2)] show ?thesis by blast
qed

theorem serialize_doc_id_overwrites_witness:
  "map_of sample_record (ascii ''id'') = Some (PInt 7)
   \<and> map_of sample_record (ascii ''_id'') = Some (PObjectId (ascii ''65a1f0c2e4b0a1b2c3d4e5f6''))
   \<and> (\<exists>out. deref (fst (serialize_doc [sample_record] (Some 0)))
                (snd (serialize_doc [sample_record] (Some 0))) = Some out
          \<and> ascii ''_id'' \<notin> fst ` set out
          \<and> filter (\<lambda>kv. fst kv = ascii ''id'') out
               = [(ascii ''id'', PStr (ascii ''65a1f0c2e4b0a1b2c3d4e5f6''))])"
proof -
  have wf: "wf_dict ([sample_record] ! 0)"
    by (simp add: wf_dict_def sample_record_def)
  have id: "map_of ([sample_record] ! 0) (ascii ''_id'')
              = Some (PObjectId (ascii ''65a1f0c2e4b0a1b2c3d4e5f6''))"
    by (simp add: sample_record_def)
  have old: "map_of sample_record (ascii ''id'') = Some (PInt 7)"
    by (simp add: sample_record_def)
  have run: "serialize_doc [sample_record] (Some 0)
               = (fst (serialize_doc [sample_record] (Some 0)),
                  snd (serialize_doc [sample_record] (Some 0)))"
    by simp
  from serialize_doc_id_overwrites [OF _ wf id run] id old show ?thesis
    by simp
qed

section \<open>Lemmas on the handlers\<close>

lemma get_documents_traced:
  "get_documents (traced gw) c f l (s, t) =
     (case get_documents gw c f l s of
        (r, s') \<Rightarrow> (r, (s', t @ [(GetDocuments c f l, outcome_of r)])))"
  by (simp add: traced_def)

lemma create_document_traced:
  "create_document (traced gw) c p (s, t) =
     (case create_document gw c p s of
        (r, s') \<Rightarrow> (r, (s', t @ [(CreateDocument c p, outcome_of r)])))"
  by (simp add: traced_def)

text \<open>One call: the store grows at its end only, and the returned reference stands for
  the serialized items of the argument.\<close>

lemma serialize_doc_result:
  assumes "a < length h"
  shows "\<exists>ext b. serialize_doc h (Some a) = (h @ ext, Some b)
           \<and> b < length (h @ ext) \<and> (h @ ext) ! b = serialized (h ! a)"
proof (cases "h ! a = []")
  case True
  have "serialize_doc h (Some a) = (h @ [], Some a)"
    using True by (simp add: serialize_doc_empty)
  moreover have "a < length (h @ [])" "(h @ []) ! a = serialized (h ! a)"
    using assms True by (simp_all add: serialized_def)
  ultimately show ?thesis by blast
next
  case False
  have "serialize_doc h (Some a) = (h @ [serialized (h ! a)], Some (length h))"
    using assms False by (rule serialize_doc_copy)
  moreover have "length h < length (h @ [serialized (h ! a)])"
    "(h @ [serialized (h ! a)]) ! length h = serialized (h ! a)"
    by simp_all
  ultimately show ?thesis by blast
qed

lemma serialize_value_eq: "serialize_value d = Some (serialized d)"
proof -
  obtain ext b where "serialize_doc [d] (Some 0) = ([d] @ ext, Some b)"
    and "([d] @ ext) ! b = serialized ([d] ! 0)"
    using serialize_doc_result [of 0 "[d]"] by auto
  then show ?thesis by (simp add: serialize_value_def deref_def)
qed

lemma serialize_each_result:
  assumes "\<forall>x \<in> set xs. x < length h" and "serialize_each h xs = (h', rs)"
  shows "(\<exists>ext. h' = h @ ext) \<and> (\<forall>r \<in> set rs. \<exists>b. r = Some b \<and> b < length h')
    \<and> map (deref h') rs = map (\<lambda>x. Some (serialized (h ! x))) xs"
  using assms
proof (induction xs arbitrary: h h' rs)
  case Nil
  then show ?case by simp
next
  case (Cons x xs)
  have x: "x < length h" using Cons.prems(1) by simp
  obtain e1 b where call: "serialize_doc h (Some x) = (h @ e1, Some b)"
    and b: "b < length (h @ e1)" and at: "(h @ e1) ! b = serialized (h ! x)"
    using serialize_doc_result [OF x] by blast
  obtain h2 rs2 where rest: "serialize_each (h @ e1) xs = (h2, rs2)"
    by (cases "serialize_each (h @ e1) xs")
  have res: "h' = h2" "rs = Some b # rs2"
    using Cons.prems(2) call rest by simp_all
  have inb: "\<forall>y \<in> set xs. y < length (h @ e1)"
    using Cons.prems(1) by auto
  from Cons.IH [OF inb rest] obtain e2 where h2: "h2 = (h @ e1) @ e2"
    and refs: "\<forall>r \<in> set rs2. \<exists>c. r = Some c \<and> c < length h2"
    and vals: "map (deref h2) rs2 = map (\<lambda>y. Some (serialized ((h @ e1) ! y))) xs"
    by blast
  have same: "map (\<lambda>y. Some (serialized ((h @ e1) ! y))) xs
                = map (\<lambda>y. Some (serialized (h ! y))) xs"
    using Cons.prems(1) by (simp add: nth_append)
  have "((h @ e1) @ e2) ! b = (h @ e1) ! b"
    using b by (rule nth_append_left)
  then have first: "deref h2 (Some b) = Some (serialized (h ! x))"
    using at by (simp only: deref_def h2 option.map)
  have "b < length h2" using b by (simp add: h2)
  with refs have allrefs: "\<forall>r \<in> set (Some b # rs2). \<exists>c. r = Some c \<and> c < length h2"
    by simp
  have grows: "\<exists>ext. h2 = h @ ext"
    unfolding h2 append_assoc by (rule exI) (rule refl)
  have all: "map (deref h2) (Some b # rs2) = map (\<lambda>y. Some (serialized (h ! y))) (x # xs)"
    using first vals same by (simp only: list.map)
  show ?case
    unfolding res using grows allrefs all by (intro conjI)
qed

lemma serialize_items_eq: "serialize_items items = map serialize_value items"
proof -
  obtain h rs where run: "serialize_each items [0..<length items] = (h, rs)"
    by (cases "serialize_each items [0..<length items]")
  have "\<forall>x \<in> set [0..<length items]. x < length items" by simp
  from serialize_each_result [OF this run]
  have "map (deref h) rs = map (\<lambda>x. Some (serialized (items ! x))) [0..<length items]"
    by blast
  also have "\<dots> = map (\<lambda>d. Some (serialized d)) (map ((!) items) [0..<length items])"
    by (simp only: map_map comp_def)
  also have "\<dots> = map (\<lambda>d. Some (serialized d)) items"
    by (simp only: map_nth)
  finally show ?thesis by (simp add: serialize_items_def run serialize_value_eq)
qed

section \<open>The handlers on a gateway\<close>

text \<open>
  C6. \<open>list_products\<close> makes one call of the gateway: \<open>get_documents\<close> on the collection
  \<open>product\<close> with the limit it was given and with the filter \<open>{"category": value}\<close>, or
  the empty filter when the category is absent or empty. When the call returns, the
  response is the list of the serialized records, one for each record returned and in
  the same order.
\<close>

theorem list_products_serializes:
  assumes "get_documents gw (ascii ''product'')
             (if cat = None \<or> cat = Some [] then [] else [(ascii ''category'', PStr (the cat))])
             limit s = (Inr items, s')"
  shows "list_products (traced gw) cat limit (s, t) =
           (Inr (map serialize_value items),
            (s', t @ [(GetDocuments (ascii ''product'')
                         (if cat = None \<or> cat = Some [] then []
                          else [(ascii ''category'', PStr (the cat))])
                         limit, Returned)]))"
proof (cases "cat = None \<or> cat = Some []")
  case True
  then have "\<not> truthy cat" by (auto simp: truthy_def)
  with assms True show ?thesis
    by (simp add: list_products_def get_documents_traced serialize_items_eq outcome_of_def)
next
  case False
  then have "truthy cat" by (cases cat) (simp_all add: truthy_def)
  with assms False show ?thesis
    by (simp add: list_products_def get_documents_traced serialize_items_eq outcome_of_def)
qed

theorem list_products_serializes_witness:
  "list_products (traced (memory_gateway 10)) (Some (ascii ''Cardio'')) None (sample_store, []) =
     (Inr [Some [(ascii ''title'', PStr (ascii ''Foldable Treadmill'')),
                 (ascii ''category'', PStr (ascii ''Cardio'')),
                 (ascii ''id'', PStr (ascii ''65a1f0c2e4b0a1b2c3d4e5f7''))]],
      (sample_store,
       [(GetDocuments (ascii ''product'') [(ascii ''category'', PStr (ascii ''Cardio''))] None,
         Returned)]))"
proof -
  have get: "get_documents (memory_gateway 10) (ascii ''product'')
               (if Some (ascii ''Cardio'') = None \<or> Some (ascii ''Cardio'') = Some [] then []
                else [(ascii ''category'', PStr (the (Some (ascii ''Cardio''))))])
               None sample_store = (Inr [sample_treadmill], sample_store)"
    by (simp add: memory_gateway_def sample_store_def matches_def sample_record_def
        sample_treadmill_def ascii_def)
  have val: "serialize_value sample_treadmill =
               Some [(ascii ''title'', PStr (ascii ''Foldable Treadmill'')),
                     (ascii ''category'', PStr (ascii ''Cardio'')),
                     (ascii ''id'', PStr (ascii ''65a1f0c2e4b0a1b2c3d4e5f7''))]"
    by (simp add: serialize_value_eq serialized_def renamed_def sample_treadmill_def)
  have ne: "ascii ''Cardio'' \<noteq> []"
    by (simp add: ascii_def)
  from list_products_serializes [OF get, of "[]"] val ne show ?thesis
    by simp
qed

lemma create_each_traced_ok:
  "create_each gw ps s = (Inr u, s') \<Longrightarrow>
     create_each (traced gw) ps (s, t) =
       (Inr u, (s', t @ map (\<lambda>p. (CreateDocument (ascii ''product'') p, Returned)) ps))"
proof (induction ps arbitrary: s t)
  case Nil
  then show ?case by simp
next
  case (Cons p ps)
  obtain r s1 where call: "create_document gw (ascii ''product'') p s = (r, s1)"
    by (cases "create_document gw (ascii ''product'') p s")
  show ?case
  proof (cases r)
    case (Inl e)
    with Cons.prems call show ?thesis by simp
  next
    case (Inr new_id)
    with Cons.prems call have "create_each gw ps s1 = (Inr u, s')" by simp
    from Cons.IH [OF this] call Inr show ?thesis
      by (simp add: create_document_traced outcome_of_def)
  qed
qed

lemma create_each_traced_raised:
  "create_each (traced gw) ps (s, t) = (r, (s', t')) \<Longrightarrow>
     \<forall>rq e. (rq, Raised e) \<notin> set t \<Longrightarrow> (rq, Raised e) \<in> set t' \<Longrightarrow> r = Inl e"
proof (induction ps arbitrary: s t)
  case Nil
  then show ?case by simp
next
  case (Cons p ps)
  obtain r1 s1 where call: "create_document gw (ascii ''product'') p s = (r1, s1)"
    by (cases "create_document gw (ascii ''product'') p s")
  show ?case
  proof (cases r1)
    case (Inl e1)
    with Cons.prems call show ?thesis
      by (auto simp: create_document_traced outcome_of_def)
  next
    case (Inr new_id)
    let ?t1 = "t @ [(CreateDocument (ascii ''product'') p, Returned)]"
    have run: "create_each (traced gw) ps (s1, ?t1) = (r, (s', t'))"
      using Cons.prems(1) call Inr by (simp add: create_document_traced outcome_of_def)
    have clean: "\<forall>rq e. (rq, Raised e) \<notin> set ?t1"
      using Cons.prems(2) by simp
    from Cons.IH [OF run clean Cons.prems(3)] show ?thesis .
  qed
qed

text \<open>
  C5. \<open>seed_products\<close> first calls \<open>get_documents\<close> on the collection \<open>product\<close> with the
  empty filter and limit 1. If that call returns a record, the handler makes no other
  call and answers with the status that products already exist. If it returns none, and
  no \<open>create_document\<close> raises, the handler creates the five sample products in their
  order, nothing else, and answers with the count 5; their titles are the five of the
  list.
\<close>

theorem seed_products_seeds:
  assumes "get_documents gw (ascii ''product'') [] (Some 1) s = (Inr existing, s')"
  shows "(existing \<noteq> [] \<longrightarrow>
            seed_products (traced gw) (s, t) =
              (Inr [(ascii ''status'', PStr (ascii ''ok'')),
                    (ascii ''message'', PStr (ascii ''Products already exist''))],
               (s', t @ [(GetDocuments (ascii ''product'') [] (Some 1), Returned)])))
    \<and> (existing = [] \<and> create_each gw sample_products s' = (Inr (), s'') \<longrightarrow>
            seed_products (traced gw) (s, t) =
              (Inr [(ascii ''status'', PStr (ascii ''ok'')), (ascii ''count'', PInt 5)],
               (s'', t @ (GetDocuments (ascii ''product'') [] (Some 1), Returned)
                      # map (\<lambda>p. (CreateDocument (ascii ''product'') p, Returned))
                          sample_products)))
    \<and> map title sample_products =
        [ascii ''Adjustable Dumbbell (Pair)'', ascii ''Kettlebell 16kg'', ascii ''Yoga Mat Pro'',
         ascii ''Resistance Bands Set'', ascii ''Foldable Treadmill'']"
proof (intro conjI impI)
  assume "existing \<noteq> []"
  with assms show "seed_products (traced gw) (s, t) =
      (Inr [(ascii ''status'', PStr (ascii ''ok'')),
            (ascii ''message'', PStr (ascii ''Products already exist''))],
       (s', t @ [(GetDocuments (ascii ''product'') [] (Some 1), Returned)]))"
    by (simp add: seed_products_def get_documents_traced outcome_of_def)
next
  assume run: "existing = [] \<and> create_each gw sample_products s' = (Inr (), s'')"
  have len: "length sample_products = 5"
    by (simp add: sample_products_def)
  from run assms create_each_traced_ok [of gw sample_products s' "()" s'']
  show "seed_products (traced gw) (s, t) =
      (Inr [(ascii ''status'', PStr (ascii ''ok'')), (ascii ''count'', PInt 5)],
       (s'', t @ (GetDocuments (ascii ''product'') [] (Some 1), Returned)
              # map (\<lambda>p. (CreateDocument (ascii ''product'') p, Returned)) sample_products))"
    by (simp add: seed_products_def get_documents_traced outcome_of_def len)
next
  show "map title sample_products =
        [ascii ''Adjustable Dumbbell (Pair)'', ascii ''Kettlebell 16kg'', ascii ''Yoga Mat Pro'',
         ascii ''Resistance Bands Set'', ascii ''Foldable Treadmill'']"
    by (simp add: sample_products_def)
qed

lemma sample_store_listing:
  "get_documents (memory_gateway 10) (ascii ''product'') [] (Some 1) sample_store
     = (Inr [sample_record], sample_store)"
  by (simp add: memory_gateway_def sample_store_def matches_def)

lemma empty_store_listing:
  "get_documents (memory_gateway q) (ascii ''product'') [] (Some 1) (Some [])
     = (Inr [], Some [])"
  by (simp add: memory_gateway_def)

lemma memory_create:
  "length docs < q \<Longrightarrow>
     create_document (memory_gateway q) c p (Some docs) =
       (Inr (zpad 24 (length docs)),
        Some (docs @ [(c, (ascii ''_id'', PObjectId (zpad 24 (length docs))) # product_fields p)]))"
  by (simp add: memory_gateway_def Let_def)

lemma memory_create_full:
  "q \<le> length docs \<Longrightarrow>
     create_document (memory_gateway q) c p (Some docs) = (Inl (ascii ''write rejected''), Some docs)"
  by (simp add: memory_gateway_def)

lemma memory_create_each:
  "length docs + length ps \<le> q \<Longrightarrow>
     fst (create_each (memory_gateway q) ps (Some docs)) = Inr ()"
proof (induction ps arbitrary: docs)
  case Nil
  then show ?case by simp
next
  case (Cons p ps)
  have "length docs < q" using Cons.prems by simp
  from memory_create [OF this] Cons.IH [of "docs @ [(ascii ''product'',
      (ascii ''_id'', PObjectId (zpad 24 (length docs))) # product_fields p)]"] Cons.prems
  show ?case by simp
qed

theorem seed_products_seeds_witness:
  "seed_products (traced (memory_gateway 10)) (Some [], []) =
     (Inr [(ascii ''status'', PStr (ascii ''ok'')), (ascii ''count'', PInt 5)],
      (snd (create_each (memory_gateway 10) sample_products (Some [])),
       (GetDocuments (ascii ''product'') [] (Some 1), Returned)
         # map (\<lambda>p. (CreateDocument (ascii ''product'') p, Returned)) sample_products))
   \<and> seed_products (traced (memory_gateway 10)) (sample_store, []) =
     (Inr [(ascii ''status'', PStr (ascii ''ok'')),
           (ascii ''message'', PStr (ascii ''Products already exist''))],
      (sample_store, [(GetDocuments (ascii ''product'') [] (Some 1), Returned)]))"
proof -
  have "fst (create_each (memory_gateway 10) sample_products (Some [])) = Inr ()"
    by (rule memory_create_each) (simp add: sample_products_def)
  then have run: "create_each (memory_gateway 10) sample_products (Some [])
                    = (Inr (), snd (create_each (memory_gateway 10) sample_products (Some [])))"
    by (metis prod.collapse)
  have first: "seed_products (traced (memory_gateway 10)) (Some [], []) =
     (Inr [(ascii ''status'', PStr (ascii ''ok'')), (ascii ''count'', PInt 5)],
      (snd (create_each (memory_gateway 10) sample_products (Some [])),
       (GetDocuments (ascii ''product'') [] (Some 1), Returned)
         # map (\<lambda>p. (CreateDocument (ascii ''product'') p, Returned)) sample_products))"
    using seed_products_seeds [OF empty_store_listing, where t = "[]"
        and s'' = "snd (create_each (memory_gateway 10) sample_products (Some []))" and q1 = 10] run
    by simp
  have ne: "[sample_record] \<noteq> []" by simp
  have second: "seed_products (traced (memory_gateway 10)) (sample_store, []) =
     (Inr [(ascii ''status'', PStr (ascii ''ok'')),
           (ascii ''message'', PStr (ascii ''Products already exist''))],
      (sample_store, [(GetDocuments (ascii ''product'') [] (Some 1), Returned)]))"
    using seed_products_seeds [OF sample_store_listing, where t = "[]"] ne
    by simp
  from first second show ?thesis by (rule conjI)
qed

text \<open>
  C7. Whenever a call of the gateway made by \<open>list_products\<close>, \<open>create_product\<close> or
  \<open>seed_products\<close> raises an exception, the handler ends with
  \<open>HTTPException(status_code=500, detail=str(e))\<close> for that exception. A handler has no
  other outcome than this or a response.
\<close>

theorem gateway_failure_is_server_error:
  "(list_products (traced gw) cat limit (s, []) = (res1, (s1, t1)) \<and> (rq1, Raised e1) \<in> set t1
      \<longrightarrow> res1 = Inl (HTTPException 500 e1))
   \<and> (create_product (traced gw) p (s, []) = (res2, (s2, t2)) \<and> (rq2, Raised e2) \<in> set t2
      \<longrightarrow> res2 = Inl (HTTPException 500 e2))
   \<and> (seed_products (traced gw) (s, []) = (res3, (s3, t3)) \<and> (rq3, Raised e3) \<in> set t3
      \<longrightarrow> res3 = Inl (HTTPException 500 e3))"
proof (intro conjI impI)
  assume a: "list_products (traced gw) cat limit (s, []) = (res1, (s1, t1))
               \<and> (rq1, Raised e1) \<in> set t1"
  let ?f = "if truthy cat then [(ascii ''category'', PStr (the cat))] else []"
  obtain r s' where call: "get_documents gw (ascii ''product'') ?f limit s = (r, s')"
    by (cases "get_documents gw (ascii ''product'') ?f limit s")
  show "res1 = Inl (HTTPException 500 e1)"
  proof (cases r)
    case (Inl e)
    with a call show ?thesis
      by (auto simp: list_products_def get_documents_traced outcome_of_def)
  next
    case (Inr items)
    with a call show ?thesis
      by (auto simp: list_products_def get_documents_traced outcome_of_def)
  qed
next
  assume a: "create_product (traced gw) p (s, []) = (res2, (s2, t2))
               \<and> (rq2, Raised e2) \<in> set t2"
  obtain r s' where call: "create_document gw (ascii ''product'') p s = (r, s')"
    by (cases "create_document gw (ascii ''product'') p s")
  show "res2 = Inl (HTTPException 500 e2)"
  proof (cases r)
    case (Inl e)
    with a call show ?thesis
      by (auto simp: create_product_def create_document_traced outcome_of_def)
  next
    case (Inr new_id)
    with a call show ?thesis
      by (auto simp: create_product_def create_document_traced outcome_of_def)
  qed
next
  assume a: "seed_products (traced gw) (s, []) = (res3, (s3, t3))
               \<and> (rq3, Raised e3) \<in> set t3"
  let ?t = "[(GetDocuments (ascii ''product'') [] (Some 1), Returned)]"
  obtain r s' where call: "get_documents gw (ascii ''product'') [] (Some 1) s = (r, s')"
    by (cases "get_documents gw (ascii ''product'') [] (Some 1) s")
  show "res3 = Inl (HTTPException 500 e3)"
  proof (cases r)
    case (Inl e)
    with a call show ?thesis
      by (auto simp: seed_products_def get_documents_traced outcome_of_def)
  next
    case (Inr existing)
    show ?thesis
    proof (cases "existing = []")
      case False
      with a call Inr show ?thesis
        by (auto simp: seed_products_def get_documents_traced outcome_of_def)
    next
      case True
      obtain r' s'' t'' where loop:
        "create_each (traced gw) sample_products (s', ?t) = (r', (s'', t''))"
        by (cases "create_each (traced gw) sample_products (s', ?t)") auto
      have clean: "\<forall>rq e. (rq, Raised e) \<notin> set ?t" by simp
      have t3: "t3 = t''"
        using a call Inr True loop
        by (auto simp: seed_products_def get_documents_traced outcome_of_def split: sum.splits)
      with a have "(rq3, Raised e3) \<in> set t''" by simp
      from create_each_traced_raised [OF loop clean this] have "r' = Inl e3" .
      with a call Inr True loop show ?thesis
        by (simp add: seed_products_def get_documents_traced outcome_of_def)
    qed
  qed
qed

lemma memory_unreachable:
  "get_documents (memory_gateway q) c f l None = (Inl (ascii ''store unreachable''), None)"
  "create_document (memory_gateway q) c p None = (Inl (ascii ''store unreachable''), None)"
  by (simp_all add: memory_gateway_def)

theorem gateway_failure_is_server_error_witness:
  "fst (list_products (traced (memory_gateway 10)) None None (None, []))
     = Inl (HTTPException 500 (ascii ''store unreachable''))
   \<and> fst (create_product (traced (memory_gateway 10)) (hd sample_products) (None, []))
     = Inl (HTTPException 500 (ascii ''store unreachable''))
   \<and> fst (seed_products (traced (memory_gateway 2)) (Some [], []))
     = Inl (HTTPException 500 (ascii ''write rejected''))"
proof -
  let ?l = "list_products (traced (memory_gateway 10)) None None (None, [])"
  let ?c = "create_product (traced (memory_gateway 10)) (hd sample_products) (None, [])"
  let ?s = "seed_products (traced (memory_gateway 2)) (Some [], [])"
  have l: "?l = (fst ?l, (fst (snd ?l), snd (snd ?l)))
             \<and> (GetDocuments (ascii ''product'') [] None, Raised (ascii ''store unreachable''))
                 \<in> set (snd (snd ?l))"
    by (simp add: list_products_def truthy_def get_documents_traced memory_unreachable
        outcome_of_def)
  have c: "?c = (fst ?c, (fst (snd ?c), snd (snd ?c)))
             \<and> (CreateDocument (ascii ''product'') (hd sample_products),
                  Raised (ascii ''store unreachable'')) \<in> set (snd (snd ?c))"
    by (simp add: create_product_def create_document_traced memory_unreachable outcome_of_def)
  have s: "?s = (fst ?s, (fst (snd ?s), snd (snd ?s)))
             \<and> (CreateDocument (ascii ''product'') (sample_products ! 2),
                  Raised (ascii ''write rejected'')) \<in> set (snd (snd ?s))"
    by (simp add: seed_products_def get_documents_traced create_document_traced
        empty_store_listing memory_create memory_create_full sample_products_def outcome_of_def)
  note inst = gateway_failure_is_server_error [where gw = "memory_gateway 10" and s = None
      and cat = None and limit = None and p = "hd sample_products"]
  have "fst ?l = Inl (HTTPException 500 (ascii ''store unreachable''))"
    using inst [THEN conjunct1] l by blast
  moreover have "fst ?c = Inl (HTTPException 500 (ascii ''store unreachable''))"
    using inst [THEN conjunct2, THEN conjunct1] c by blast
  moreover have "fst ?s = Inl (HTTPException 500 (ascii ''write rejected''))"
    using gateway_failure_is_server_error [where gw = "memory_gateway 2" and s = "Some []",
        THEN conjunct2, THEN conjunct2] s by blast
  ultimately show ?thesis by simp
qed

lemma length_ascii [simp]: "length (ascii s) = length s"
  by (simp add: ascii_def)

text \<open>
  C8. \<open>test_database\<close> returns a response for every handle and every environment. The
  collections listed are at most ten; the \<open>database\<close> line is one of the fixed texts or
  a fixed text followed by the first 50 characters of the exception's message, at most 75
  characters in all.
\<close>

theorem test_database_never_fails:
  "\<exists>r. test_database db getenv = Inr r
     \<and> length (collections r) \<le> 10
     \<and> length (database r) \<le> 75
     \<and> (case db of
          None \<Rightarrow>
            database r = warning_sign @ ascii ''  Available but not initialized''
            \<and> collections r = []
        | Some d \<Rightarrow>
            (case name_attr d of
               Inl e \<Rightarrow>
                 database r = cross_mark @ ascii '' Error: '' @ take 50 e
                 \<and> collections r = []
             | Inr nm \<Rightarrow>
                 (case list_collection_names d of
                    Inl e \<Rightarrow>
                      database r = warning_sign @ ascii ''  Connected but Error: '' @ take 50 e
                      \<and> collections r = []
                  | Inr cs \<Rightarrow>
                      database r = check_mark @ ascii '' Connected & Working''
                      \<and> collections r = take 10 cs)))"
proof (cases db)
  case None
  then show ?thesis
    by (simp add: test_database_def probe_database_def warning_sign_def)
next
  case (Some d)
  show ?thesis
  proof (cases "name_attr d")
    case (Inl e)
    with Some show ?thesis
      by (simp add: test_database_def probe_database_def cross_mark_def)
  next
    case (Inr nm)
    show ?thesis
    proof (cases "list_collection_names d")
      case (Inl e)
      with Some Inr show ?thesis
        by (simp add: test_database_def probe_database_def list_collections_def warning_sign_def)
    next
      case inr: (Inr cs)
      with Some Inr show ?thesis
        by (simp add: test_database_def probe_database_def list_collections_def check_mark_def)
    qed
  qed
qed

theorem test_database_never_fails_witness:
  "\<exists>r. test_database
          (Some \<lparr>name_attr = Inr (Some (ascii ''gym'')),
                 list_collection_names = Inl (replicate 60 120)\<rparr>)
          (\<lambda>k. None) = Inr r
     \<and> database r = warning_sign @ ascii ''  Connected but Error: '' @ replicate 50 120
     \<and> length (database r) = 75
     \<and> collections r = []"
  using test_database_never_fails [of "Some \<lparr>name_attr = Inr (Some (ascii ''gym'')),
    list_collection_names = Inl (replicate 60 120)\<rparr>" "\<lambda>k. None"]
  by (auto simp: warning_sign_def)

end
